theory Spec2Isabelle
  imports Complex_Main
begin

section \<open>Erlang C queue with working holidays: the embedding of main.py\<close>

text \<open>
  The program computes with Python floats and ints. The embedding takes every number as
  an exact \<^typ>\<open>real\<close> (an \<^typ>\<open>int\<close> where Python has an int): rounding error,
  overflow and the special values of IEEE arithmetic are not modelled, so every
  statement below is about the formulas the code evaluates, in exact arithmetic.
  Exceptions are values: a function that can raise returns \<open>py_error + 'a\<close>.
\<close>

subsection \<open>Python primitives\<close>

datatype py_error =
    ZeroDivisionError
  | ValueError
  | ComplexResult \<comment> \<open>a negative base to a fractional power: Python leaves the floats\<close>

text \<open>\<^verbatim>\<open>a / b\<close> on numbers raises on a zero divisor.\<close>

definition py_div :: "real \<Rightarrow> real \<Rightarrow> py_error + real" where
  "py_div a b = (if b = 0 then Inl ZeroDivisionError else Inr (a / b))"

text \<open>
  \<^verbatim>\<open>b ** e\<close> with a float among the operands. An integral exponent gives the integer
  power (zero to a negative power raises); a fractional one gives the real power of a
  positive base, zero for a zero base and a positive exponent.
\<close>

definition py_pow :: "real \<Rightarrow> real \<Rightarrow> py_error + real" where
  "py_pow b e =
     (if e = of_int \<lfloor>e\<rfloor> then
        (if b = 0 \<and> e < 0 then Inl ZeroDivisionError else Inr (b powi \<lfloor>e\<rfloor>))
      else if 0 < b then Inr (b powr e)
      else if b = 0 then (if e < 0 then Inl ZeroDivisionError else Inr 0)
      else Inl ComplexResult)"

text \<open>\<^verbatim>\<open>round(x)\<close>: the nearest integer, a tie going to the even neighbour.\<close>

definition py_round :: "real \<Rightarrow> int" where
  "py_round x =
     (let f = \<lfloor>x\<rfloor>; d = x - of_int f in
      if d < 1 / 2 then f
      else if 1 / 2 < d then f + 1
      else if even f then f else f + 1)"

text \<open>\<^verbatim>\<open>round(x, k)\<close>: the same rounding at the k-th decimal place.\<close>

definition py_round_nd :: "real \<Rightarrow> nat \<Rightarrow> real" where
  "py_round_nd x k = of_int (py_round (x * 10 ^ k)) / 10 ^ k"

text \<open>\<^verbatim>\<open>math.factorial(k)\<close> raises \<^verbatim>\<open>ValueError\<close> on a negative argument.\<close>

definition math_factorial :: "int \<Rightarrow> py_error + nat" where
  "math_factorial k = (if k < 0 then Inl ValueError else Inr (fact (nat k)))"

definition math_ceil :: "real \<Rightarrow> int" where
  "math_ceil x = \<lceil>x\<rceil>"

definition math_e :: real where
  "math_e = exp 1"

subsection \<open>Traffic intensity and the combined traffic\<close>

definition get_traffic_intensity :: "real \<Rightarrow> real \<Rightarrow> real \<Rightarrow> py_error + real" where
  "get_traffic_intensity arrival_rate n_agents service_rate =
     py_div arrival_rate (n_agents * service_rate)"



subsection \<open>The class ErlangQueue\<close>

record ErlangQueue =
  num_agents :: real
  target_answer_time :: real
  target_service_level_agreement :: real
  average_handling_time :: real
  shrinkage :: real

text \<open>The constructor \<^verbatim>\<open>__init__\<close> of lines 61-74.\<close>

definition ErlangQueue_init :: "real \<Rightarrow> real \<Rightarrow> real \<Rightarrow> real \<Rightarrow> real \<Rightarrow> ErlangQueue" where
  "ErlangQueue_init na tat tsla aht shr =
     \<lparr>num_agents = na, target_answer_time = tat,
      target_service_level_agreement = tsla,
      average_handling_time = aht, shrinkage = shr\<rparr>"

text \<open>The loop of lines 90-91: \<^verbatim>\<open>y += (traffic_intensity**i) / math.factorial(i)\<close>.\<close>

definition y_loop :: "real \<Rightarrow> int \<Rightarrow> real \<Rightarrow> real" where
  "y_loop ti k y0 = foldl (\<lambda>y i. y + ti ^ i / fact i) y0 [0..<nat k]"

definition waiting_probability :: "ErlangQueue \<Rightarrow> real \<Rightarrow> py_error + real" where
  "waiting_probability self ti =
     (case py_pow ti (num_agents self) of
        Inl e \<Rightarrow> Inl e
      | Inr p \<Rightarrow>
     (case math_factorial (py_round (num_agents self)) of
        Inl e \<Rightarrow> Inl e
      | Inr f \<Rightarrow>
     (case py_div ((p / of_nat f) * num_agents self) (num_agents self - ti) of
        Inl e \<Rightarrow> Inl e
      | Inr x \<Rightarrow>
          (let y = y_loop ti (py_round (num_agents self)) 1
           in py_div x (y + x)))))"

definition service_level_agreement :: "ErlangQueue \<Rightarrow> real \<Rightarrow> real \<Rightarrow> py_error + real" where
  "service_level_agreement self wait_prob ti =
     (case py_div (target_answer_time self) (average_handling_time self) of
        Inl e \<Rightarrow> Inl e
      | Inr r \<Rightarrow>
          Inr (1 - (wait_prob * (math_e powr (- ((num_agents self - ti) * r))))))"

subsection \<open>The staffing search\<close>

record series =
  wp_list :: "real list"
  sla_list :: "real list"
  agent_list :: "real list"
  average_answer_speed :: "real list"
  percent_calls_answered_immediately :: "real list"
  maximum_occupancy :: "real list"
  num_shrinkage :: "int list"

definition empty_series :: series where
  "empty_series =
     \<lparr>wp_list = [], sla_list = [], agent_list = [], average_answer_speed = [],
      percent_calls_answered_immediately = [], maximum_occupancy = [], num_shrinkage = []\<rparr>"

text \<open>
  One evaluation: lines 135-154, and again lines 159-178 inside the loop. It builds the
  queue for the agent count, appends one entry to each of the seven lists and yields the
  unrounded service level, which the loop condition reads. An exception ends the whole
  call, so the lists are dropped with it.
\<close>

definition trial ::
  "real \<Rightarrow> real \<Rightarrow> real \<Rightarrow> real \<Rightarrow> real \<Rightarrow> real \<Rightarrow> series \<Rightarrow> py_error + (real \<times> series)" where
  "trial ti na tat tsla aht shr st =
     (let queue = ErlangQueue_init na tat tsla aht shr
      in
      (case waiting_probability queue ti of Inl e \<Rightarrow> Inl e | Inr wp \<Rightarrow>
      (case service_level_agreement queue wp ti of Inl e \<Rightarrow> Inl e | Inr sla \<Rightarrow>
      (case py_div (wp * aht) (na - ti) of Inl e \<Rightarrow> Inl e | Inr asa \<Rightarrow>
      (case py_div ti na of Inl e \<Rightarrow> Inl e | Inr occ \<Rightarrow>
      (case py_div na (1 - shr) of Inl e \<Rightarrow> Inl e | Inr shrunk \<Rightarrow>
        Inr (sla,
             \<lparr>wp_list = wp_list st @ [wp],
              sla_list = sla_list st @ [py_round_nd (sla * 100) 2],
              agent_list = agent_list st @ [na],
              average_answer_speed = average_answer_speed st @ [py_round_nd asa 1],
              percent_calls_answered_immediately =
                percent_calls_answered_immediately st @ [py_round_nd ((1 - wp) * 100) 2],
              maximum_occupancy = maximum_occupancy st @ [py_round_nd (occ * 100) 2],
              num_shrinkage = num_shrinkage st @ [math_ceil shrunk]\<rparr>)))))))"

text \<open>
  The \<^verbatim>\<open>while sla < target_service_level_agreement\<close> loop of lines 157-178. It has no
  bound of its own, so the result is an option: \<open>None\<close> is a run that never returns.
\<close>

partial_function (option) forward_loop ::
  "real \<Rightarrow> real \<Rightarrow> real \<Rightarrow> real \<Rightarrow> real \<Rightarrow> real \<Rightarrow> real \<Rightarrow> series \<Rightarrow> (py_error + series) option"
where
  "forward_loop ti na tat tsla aht shr sla st =
     (if sla < tsla then
        (case trial ti (na + 1) tat tsla aht shr st of
           Inl e \<Rightarrow> Some (Inl e)
         | Inr r \<Rightarrow> forward_loop ti (na + 1) tat tsla aht shr (fst r) (snd r))
      else Some (Inr st))"

definition forward ::
  "real \<Rightarrow> real \<Rightarrow> real \<Rightarrow> real \<Rightarrow> real \<Rightarrow> real \<Rightarrow> (py_error + series) option" where
  "forward ti na tat tsla aht shr =
     (case trial ti na tat tsla aht shr empty_series of
        Inl e \<Rightarrow> Some (Inl e)
      | Inr r \<Rightarrow> forward_loop ti na tat tsla aht shr (fst r) (snd r))"

text \<open>
  The unrounded service level that the search computes for one agent count (lines 143
  and 145, again 167 and 169). The loop condition reads it; \<open>sla_list\<close> records
  only its percentage rounded to two decimals.
\<close>

definition service_level_at ::
  "real \<Rightarrow> real \<Rightarrow> real \<Rightarrow> real \<Rightarrow> real \<Rightarrow> real \<Rightarrow> py_error + real" where
  "service_level_at ti na tat tsla aht shr =
     (let queue = ErlangQueue_init na tat tsla aht shr
      in (case waiting_probability queue ti of
            Inl e \<Rightarrow> Inl e
          | Inr wp \<Rightarrow> service_level_agreement queue wp ti))"

subsection \<open>The formulas of the specification\<close>

text \<open>
  The specification's waiting probability for an integer server count \<open>N\<close>, written
  from its words: \<open>x = (A^N / N!) * N / (N - A)\<close>, \<open>y\<close> is 1 plus the sum of
  \<open>A^i / i!\<close> over \<open>i = 0..N-1\<close>, and the probability is \<open>x / (x + y)\<close>.
\<close>

definition spec_x :: "real \<Rightarrow> nat \<Rightarrow> real" where
  "spec_x A N = (A ^ N / fact N) * real N / (real N - A)"

definition spec_y :: "real \<Rightarrow> nat \<Rightarrow> real" where
  "spec_y A N = 1 + (\<Sum>i<N. A ^ i / fact i)"

definition spec_waiting_probability :: "real \<Rightarrow> nat \<Rightarrow> real" where
  "spec_waiting_probability A N = spec_x A N / (spec_x A N + spec_y A N)"

subsection \<open>Invariants of the search loop\<close>

text \<open>
  The lists grow together, and the agent counts are consecutive from the starting count
  \<open>n0\<close>; \<open>n\<close> is the agent count evaluated last.
\<close>

definition series_shape :: "real \<Rightarrow> real \<Rightarrow> series \<Rightarrow> bool" where
  "series_shape n0 n t \<longleftrightarrow>
     (\<exists>L. 1 \<le> L \<and> n = n0 + real (L - 1)
        \<and> length (wp_list t) = L \<and> length (sla_list t) = L \<and> length (agent_list t) = L
        \<and> length (average_answer_speed t) = L
        \<and> length (percent_calls_answered_immediately t) = L
        \<and> length (maximum_occupancy t) = L \<and> length (num_shrinkage t) = L
        \<and> agent_list t = map (\<lambda>i. n0 + real i) [0..<L])"

text \<open>
  Entry \<open>i\<close> of \<open>sla_list\<close> is the rounded percentage of the service level at agent
  count \<open>n0 + i\<close>; every service level but the last is below the target, and the last is
  the one the loop condition reads next.
\<close>

definition crossing ::
  "real \<Rightarrow> real \<Rightarrow> real \<Rightarrow> real \<Rightarrow> real \<Rightarrow> real \<Rightarrow> real \<Rightarrow> real \<Rightarrow> series \<Rightarrow> bool" where
  "crossing ti n0 tat tsla aht shr n s t \<longleftrightarrow>
     (\<exists>L. 1 \<le> L \<and> n = n0 + real (L - 1) \<and> length (sla_list t) = L
        \<and> (\<forall>i<L. \<exists>v. service_level_at ti (n0 + real i) tat tsla aht shr = Inr v
              \<and> sla_list t ! i = py_round_nd (v * 100) 2
              \<and> (Suc i < L \<longrightarrow> v < tsla) \<and> (Suc i = L \<longrightarrow> v = s)))"


section \<open>Properties\<close>

subsection \<open>Rounding and the primitives\<close>

lemma py_round_of_int: "py_round (of_int k) = k"
  by (simp add: py_round_def)

lemma py_round_bounds: "\<lfloor>x\<rfloor> \<le> py_round x \<and> py_round x \<le> \<lfloor>x\<rfloor> + 1"
  by (simp add: py_round_def Let_def)


lemma py_round_mono:
  assumes "x \<le> y"
  shows "py_round x \<le> py_round y"
proof (cases "\<lfloor>x\<rfloor> = \<lfloor>y\<rfloor>")
  case True
  with assms show ?thesis
    by (auto simp: py_round_def Let_def)
next
  case False
  with assms have "\<lfloor>x\<rfloor> + 1 \<le> \<lfloor>y\<rfloor>"
    using floor_mono [of x y] by linarith
  with py_round_bounds [of x] py_round_bounds [of y] show ?thesis
    by linarith
qed

lemma py_round_nd_mono: "x \<le> y \<Longrightarrow> py_round_nd x k \<le> py_round_nd y k"
  by (simp add: py_round_nd_def py_round_mono divide_right_mono)

lemma y_loop_sum: "y_loop ti k y0 = y0 + (\<Sum>i<nat k. ti ^ i / fact i)"
proof -
  have "foldl (\<lambda>y i. y + ti ^ i / fact i) y0 [0..<m] = y0 + (\<Sum>i<m. ti ^ i / fact i)" for m
    by (induction m) simp_all
  then show ?thesis
    by (simp add: y_loop_def)
qed

lemma py_pow_integral: "0 \<le> k \<Longrightarrow> py_pow b (of_int k) = Inr (b ^ nat k)"
  by (simp add: py_pow_def power_int_def)


subsection \<open>The waiting probability in closed form\<close>

text \<open>
  For a whole-number agent count the code evaluates the specification's formula, unless
  one of its two divisions is by zero.
\<close>

lemma waiting_probability_integral:
  assumes "num_agents self = of_int k" and "0 \<le> k"
  shows "waiting_probability self A =
    (if of_int k = A then Inl ZeroDivisionError
     else if spec_y A (nat k) + spec_x A (nat k) = 0 then Inl ZeroDivisionError
     else Inr (spec_waiting_probability A (nat k)))"
  using assms
  by (simp add: waiting_probability_def py_pow_integral py_round_of_int math_factorial_def
      py_div_def y_loop_sum spec_x_def spec_y_def spec_waiting_probability_def add.commute)


lemma spec_y_ge_1: "0 \<le> A \<Longrightarrow> 1 \<le> spec_y A N"
  by (simp add: spec_y_def sum_nonneg)

lemma spec_x_nonneg: "0 \<le> A \<Longrightarrow> A < real N \<Longrightarrow> 0 \<le> spec_x A N"
  by (simp add: spec_x_def)


subsection \<open>Traffic intensity\<close>

text \<open>
  C8, as the claim states it, fails: a non-positive input is not rejected. At arrival
  rate \<open>-1\<close> the function returns \<open>-1\<close>.
\<close>

theorem C8_negative_arrival_rate_accepted:
  "(-1::real) \<le> 0 \<and> get_traffic_intensity (-1) 1 1 = Inr (-1)"
  by (simp add: get_traffic_intensity_def py_div_def)

text \<open>
  C8, amended: \<open>get_traffic_intensity\<close> validates nothing. It fails exactly when the
  product of agent count and service rate is zero, and then with the division's
  \<open>ZeroDivisionError\<close>; in every other case, so for all strictly positive inputs, it
  returns the arrival rate divided by that product, which is non-negative when the
  inputs are positive. The function is pure.
\<close>

theorem C8_get_traffic_intensity:
  "((\<exists>e. get_traffic_intensity a n s = Inl e) \<longleftrightarrow> n * s = 0)
   \<and> (n * s = 0 \<longrightarrow> get_traffic_intensity a n s = Inl ZeroDivisionError)
   \<and> (n * s \<noteq> 0 \<longrightarrow> get_traffic_intensity a n s = Inr (a / (n * s)))
   \<and> (0 < a \<and> 0 < n \<and> 0 < s \<longrightarrow>
        get_traffic_intensity a n s = Inr (a / (n * s)) \<and> 0 \<le> a / (n * s))"
  by (auto simp: get_traffic_intensity_def py_div_def)

theorem C8_get_traffic_intensity_witness:
  "(0::real) < 225 \<and> (0::real) < 7 \<and> (0::real) < 60 \<and> (7::real) * 60 \<noteq> 0
   \<and> get_traffic_intensity 225 7 60 = Inr (15 / 28)
   \<and> (0::real) * 60 = 0 \<and> get_traffic_intensity 225 0 60 = Inl ZeroDivisionError"
  using C8_get_traffic_intensity [of 225 7 60] C8_get_traffic_intensity [of 225 0 60]
  by simp

subsection \<open>The blended model\<close>


subsection \<open>The service level\<close>

text \<open>
  C7: for a non-zero average handling time, \<open>service_level_agreement\<close> returns
  \<open>1 - wp * exp (- ((n - A) * (T / AHT)))\<close>, with the agent count \<open>n\<close> taken as it
  is stored, unrounded.
\<close>

theorem C7_service_level_formula:
  assumes "average_handling_time self \<noteq> 0"
  shows "service_level_agreement self wp A =
    Inr (1 - wp * exp (- ((num_agents self - A)
                          * (target_answer_time self / average_handling_time self))))"
proof -
  have "math_e powr z = exp z" for z
    by (simp add: math_e_def powr_def)
  with assms show ?thesis
    by (simp add: service_level_agreement_def py_div_def)
qed

theorem C7_service_level_formula_witness:
  "(180::real) \<noteq> 0
   \<and> service_level_agreement (ErlangQueue_init (5 / 2) 20 (8 / 10) 180 (3 / 10)) (1 / 2) 1
     = Inr (1 - 1 / 2 * exp (- (1 / 6)))"
  using C7_service_level_formula [of "ErlangQueue_init (5 / 2) 20 (8 / 10) 180 (3 / 10)" "1 / 2" 1]
  by (simp add: ErlangQueue_init_def)

subsection \<open>The waiting probability\<close>

text \<open>A stable whole-number agent count: neither division is by zero.\<close>

lemma waiting_probability_stable:
  assumes "0 \<le> A" and "num_agents self = of_int k" and "A < of_int k"
  shows "waiting_probability self A = Inr (spec_waiting_probability A (nat k))"
proof -
  have k: "0 \<le> k" "real (nat k) = of_int k"
    using assms by linarith+
  have "0 \<le> spec_x A (nat k)"
    using assms k by (simp add: spec_x_nonneg)
  moreover have "1 \<le> spec_y A (nat k)"
    using assms by (simp add: spec_y_ge_1)
  ultimately have "spec_y A (nat k) + spec_x A (nat k) \<noteq> 0"
    by linarith
  with assms k show ?thesis
    by (simp add: waiting_probability_integral [of self k])
qed







subsection \<open>Monotonicity in the agent count\<close>







subsection \<open>The staffing search: one evaluation\<close>

lemma trial_Inr:
  assumes "trial ti na tat tsla aht shr st = Inr (sla, st')"
  shows "\<exists>wp. waiting_probability (ErlangQueue_init na tat tsla aht shr) ti = Inr wp
    \<and> service_level_agreement (ErlangQueue_init na tat tsla aht shr) wp ti = Inr sla
    \<and> na - ti \<noteq> 0 \<and> na \<noteq> 0 \<and> 1 - shr \<noteq> 0
    \<and> st' = \<lparr>wp_list = wp_list st @ [wp],
              sla_list = sla_list st @ [py_round_nd (sla * 100) 2],
              agent_list = agent_list st @ [na],
              average_answer_speed =
                average_answer_speed st @ [py_round_nd ((wp * aht) / (na - ti)) 1],
              percent_calls_answered_immediately =
                percent_calls_answered_immediately st @ [py_round_nd ((1 - wp) * 100) 2],
              maximum_occupancy = maximum_occupancy st @ [py_round_nd ((ti / na) * 100) 2],
              num_shrinkage = num_shrinkage st @ [math_ceil (na / (1 - shr))]\<rparr>"
  using assms
  by (auto simp: trial_def Let_def py_div_def split: sum.splits if_splits)

lemma trial_success:
  assumes "waiting_probability (ErlangQueue_init na tat tsla aht shr) ti = Inr wp"
    and "service_level_agreement (ErlangQueue_init na tat tsla aht shr) wp ti = Inr sla"
    and "na - ti \<noteq> 0" and "na \<noteq> 0" and "1 - shr \<noteq> 0"
  shows "trial ti na tat tsla aht shr st = Inr (sla,
           \<lparr>wp_list = wp_list st @ [wp],
            sla_list = sla_list st @ [py_round_nd (sla * 100) 2],
            agent_list = agent_list st @ [na],
            average_answer_speed =
              average_answer_speed st @ [py_round_nd ((wp * aht) / (na - ti)) 1],
            percent_calls_answered_immediately =
              percent_calls_answered_immediately st @ [py_round_nd ((1 - wp) * 100) 2],
            maximum_occupancy = maximum_occupancy st @ [py_round_nd ((ti / na) * 100) 2],
            num_shrinkage = num_shrinkage st @ [math_ceil (na / (1 - shr))]\<rparr>)"
  using assms by (simp add: trial_def Let_def py_div_def)

subsection \<open>The staffing search: loop invariants\<close>

text \<open>
  Partial correctness of the \<open>while\<close> loop: a property of agent count, service level
  and lists that every successful evaluation preserves holds of what a run returns, with
  a service level that does not satisfy the loop condition any more.
\<close>

lemma forward_loop_invariant:
  assumes run: "forward_loop ti na tat tsla aht shr sla st = Some (Inr r)"
    and init: "I na sla st"
    and step: "\<And>n s t s' t'. I n s t \<Longrightarrow> s < tsla
        \<Longrightarrow> trial ti (n + 1) tat tsla aht shr t = Inr (s', t') \<Longrightarrow> I (n + 1) s' t'"
  shows "\<exists>n' s'. I n' s' r \<and> \<not> s' < tsla"
proof -
  have "a = ti \<and> c = tat \<and> d = tsla \<and> e = aht \<and> f = shr \<longrightarrow>
      (\<forall>r. y = Inr r \<longrightarrow> I b g h \<longrightarrow> (\<exists>n' s'. I n' s' r \<and> \<not> s' < tsla))"
    if "forward_loop a b c d e f g h = Some y" for a b c d e f g h y
    using that
  proof (induction rule: forward_loop.raw_induct [rotated 1, consumes 1])
    case (1 loop a b c d e f g h y)
    show ?case
    proof (intro impI allI, elim conjE)
      fix r
      assume eq: "a = ti" "c = tat" "d = tsla" "e = aht" "f = shr"
        and y: "y = Inr r" and inv: "I b g h"
      show "\<exists>n' s'. I n' s' r \<and> \<not> s' < tsla"
      proof (cases "g < tsla")
        case False
        with 1(2) eq y have "r = h"
          by simp
        with inv False show ?thesis
          by blast
      next
        case True
        show ?thesis
        proof (cases "trial ti (b + 1) tat tsla aht shr h")
          case (Inl err)
          with 1(2) True eq y show ?thesis
            by simp
        next
          case (Inr p)
          obtain s' t' where p: "p = (s', t')"
            by (cases p)
          from 1(2) True eq Inr p
          have "loop ti (b + 1) tat tsla aht shr s' t' = Some y"
            by simp
          moreover have "I (b + 1) s' t'"
            using step [OF inv True] Inr p by simp
          ultimately show ?thesis
            using 1(1) y by blast
        qed
      qed
    qed
  qed
  with run init show ?thesis
    by blast
qed

lemma forward_Some_Inr:
  assumes "forward ti na tat tsla aht shr = Some (Inr r)"
  shows "\<exists>s st0. trial ti na tat tsla aht shr empty_series = Inr (s, st0)
    \<and> forward_loop ti na tat tsla aht shr s st0 = Some (Inr r)"
  using assms by (auto simp: forward_def split: sum.splits)

lemma series_shape_init:
  assumes "trial ti n0 tat tsla aht shr empty_series = Inr (s, t)"
  shows "series_shape n0 n0 t"
proof -
  from trial_Inr [OF assms] obtain wp where
    "t = \<lparr>wp_list = wp_list empty_series @ [wp],
          sla_list = sla_list empty_series @ [py_round_nd (s * 100) 2],
          agent_list = agent_list empty_series @ [n0],
          average_answer_speed =
            average_answer_speed empty_series @ [py_round_nd ((wp * aht) / (n0 - ti)) 1],
          percent_calls_answered_immediately =
            percent_calls_answered_immediately empty_series @ [py_round_nd ((1 - wp) * 100) 2],
          maximum_occupancy = maximum_occupancy empty_series @ [py_round_nd ((ti / n0) * 100) 2],
          num_shrinkage = num_shrinkage empty_series @ [math_ceil (n0 / (1 - shr))]\<rparr>"
    by blast
  then show ?thesis
    unfolding series_shape_def by (intro exI [of _ 1]) (simp add: empty_series_def)
qed

lemma series_shape_step:
  assumes "series_shape n0 n t" and "trial ti (n + 1) tat tsla aht shr t = Inr (s', t')"
  shows "series_shape n0 (n + 1) t'"
proof -
  from assms(1) obtain L where L: "1 \<le> L" "n = n0 + real (L - 1)"
    "length (wp_list t) = L" "length (sla_list t) = L" "length (agent_list t) = L"
    "length (average_answer_speed t) = L" "length (percent_calls_answered_immediately t) = L"
    "length (maximum_occupancy t) = L" "length (num_shrinkage t) = L"
    "agent_list t = map (\<lambda>i. n0 + real i) [0..<L]"
    unfolding series_shape_def by blast
  from trial_Inr [OF assms(2)] obtain wp where
    t': "t' = \<lparr>wp_list = wp_list t @ [wp],
          sla_list = sla_list t @ [py_round_nd (s' * 100) 2],
          agent_list = agent_list t @ [n + 1],
          average_answer_speed =
            average_answer_speed t @ [py_round_nd ((wp * aht) / (n + 1 - ti)) 1],
          percent_calls_answered_immediately =
            percent_calls_answered_immediately t @ [py_round_nd ((1 - wp) * 100) 2],
          maximum_occupancy = maximum_occupancy t @ [py_round_nd ((ti / (n + 1)) * 100) 2],
          num_shrinkage = num_shrinkage t @ [math_ceil ((n + 1) / (1 - shr))]\<rparr>"
    by blast
  have "n + 1 = n0 + real L"
    using L(1,2) by (simp add: of_nat_diff)
  then show ?thesis
    unfolding series_shape_def using L t' by (intro exI [of _ "Suc L"]) simp
qed

lemma forward_series_shape:
  assumes "forward ti na tat tsla aht shr = Some (Inr r)"
  shows "\<exists>n. series_shape na n r"
proof -
  from forward_Some_Inr [OF assms] obtain s st0 where
    t: "trial ti na tat tsla aht shr empty_series = Inr (s, st0)"
    and run: "forward_loop ti na tat tsla aht shr s st0 = Some (Inr r)"
    by blast
  have "\<exists>n' s'. series_shape na n' r \<and> \<not> s' < tsla"
    using run
  proof (rule forward_loop_invariant [where I = "\<lambda>n s t. series_shape na n t"])
    show "series_shape na na st0"
      using t by (rule series_shape_init)
  next
    fix n s t s' t'
    assume "series_shape na n t" and "trial ti (n + 1) tat tsla aht shr t = Inr (s', t')"
    then show "series_shape na (n + 1) t'"
      by (rule series_shape_step)
  qed
  then show ?thesis
    by blast
qed

text \<open>A run whose first evaluation already meets the target.\<close>

lemma forward_first_meets:
  assumes "trial ti na tat tsla aht shr empty_series = Inr (s, st0)" and "\<not> s < tsla"
  shows "forward ti na tat tsla aht shr = Some (Inr st0)"
  using assms by (simp add: forward_def forward_loop.simps)

subsection \<open>Two concrete runs\<close>

lemma py_round_eqI:
  assumes "of_int z - 1 / 2 < x" and "x < of_int z + 1 / 2"
  shows "py_round x = z"
proof (cases "of_int z \<le> x")
  case True
  with assms have "\<lfloor>x\<rfloor> = z"
    by (intro floor_unique) linarith+
  with assms show ?thesis
    by (simp add: py_round_def Let_def)
next
  case False
  with assms have "\<lfloor>x\<rfloor> = z - 1"
    by (intro floor_unique) (simp, linarith)
  with assms show ?thesis
    by (simp add: py_round_def Let_def)
qed

lemma py_round_nd_eqI:
  assumes "of_int z - 1 / 2 < x * 10 ^ k" and "x * 10 ^ k < of_int z + 1 / 2"
  shows "py_round_nd x k = of_int z / 10 ^ k"
  using py_round_eqI [OF assms] by (simp add: py_round_nd_def)

lemma exp_neg_bounds:
  fixes c :: real
  assumes "0 \<le> c"
  shows "1 - c \<le> exp (- c)" and "exp (- c) \<le> 1 / (1 + c)"
proof -
  show "1 - c \<le> exp (- c)"
    using exp_ge_add_one_self [of "- c"] by simp
  have "1 + c \<le> exp c"
    by (rule exp_ge_add_one_self)
  moreover have "0 < 1 + c"
    using assms by simp
  ultimately have "inverse (exp c) \<le> inverse (1 + c)"
    by (intro le_imp_inverse_le)
  then show "exp (- c) \<le> 1 / (1 + c)"
    by (simp add: exp_minus inverse_eq_divide)
qed

lemma service_level_agreement_exp:
  assumes "average_handling_time self \<noteq> 0"
  shows "service_level_agreement self wp ti =
    Inr (1 - wp * exp (- ((num_agents self - ti)
                          * (target_answer_time self / average_handling_time self))))"
proof -
  have "math_e powr z = exp z" for z
    by (simp add: math_e_def powr_def)
  with assms show ?thesis
    by (simp add: service_level_agreement_def py_div_def)
qed

text \<open>
  Traffic intensity \<open>1/2\<close>, one agent to start with, target answer time 1 second,
  average handling time 180 seconds, target \<open>0.667595\<close>. The first service level is
  \<open>1 - exp (- 1/360) / 3\<close>, about \<open>0.667591\<close>: below the target, and recorded as
  \<open>66.76\<close>. The second is \<open>1 - exp (- 1/120) / 16\<close>, about \<open>0.93802\<close>.
\<close>

lemma example_level_1:
  "1 - 1 / 3 * exp (- (1 / 360)) < (667595 / 1000000 :: real)"
  "py_round_nd ((1 - 1 / 3 * exp (- (1 / 360))) * 100) 2 = 6676 / 100"
proof -
  have e: "359 / 360 \<le> exp (- (1 / 360 :: real))" "exp (- (1 / 360 :: real)) \<le> 360 / 361"
    using exp_neg_bounds [of "1 / 360 :: real"] by simp_all
  from e show "1 - 1 / 3 * exp (- (1 / 360)) < (667595 / 1000000 :: real)"
    by linarith
  have "py_round_nd ((1 - 1 / 3 * exp (- (1 / 360))) * 100) 2 = of_int 6676 / 10 ^ 2"
    using e by (intro py_round_nd_eqI) simp_all
  then show "py_round_nd ((1 - 1 / 3 * exp (- (1 / 360))) * 100) 2 = 6676 / 100"
    by simp
qed

lemma example_level_2:
  "\<not> 1 - 1 / 16 * exp (- (1 / 120)) < (667595 / 1000000 :: real)"
  "py_round_nd ((1 - 1 / 16 * exp (- (1 / 120))) * 100) 2 = 9380 / 100"
proof -
  have e: "119 / 120 \<le> exp (- (1 / 120 :: real))" "exp (- (1 / 120 :: real)) \<le> 120 / 121"
    using exp_neg_bounds [of "1 / 120 :: real"] by simp_all
  from e show "\<not> 1 - 1 / 16 * exp (- (1 / 120)) < (667595 / 1000000 :: real)"
    by linarith
  have "py_round_nd ((1 - 1 / 16 * exp (- (1 / 120))) * 100) 2 = of_int 9380 / 10 ^ 2"
    using e by (intro py_round_nd_eqI) simp_all
  then show "py_round_nd ((1 - 1 / 16 * exp (- (1 / 120))) * 100) 2 = 9380 / 100"
    by simp
qed

lemma trial_example_1:
  "trial (1 / 2) 1 1 (667595 / 1000000) 180 (3 / 10) empty_series =
     Inr (1 - 1 / 3 * exp (- (1 / 360)),
       \<lparr>wp_list = [1 / 3], sla_list = [6676 / 100], agent_list = [1],
        average_answer_speed = [120], percent_calls_answered_immediately = [6667 / 100],
        maximum_occupancy = [50], num_shrinkage = [2]\<rparr>)"
proof -
  let ?q = "ErlangQueue_init 1 1 (667595 / 1000000) 180 (3 / 10)"
  have wp: "waiting_probability ?q (1 / 2) = Inr (1 / 3)"
    using waiting_probability_stable [of "1 / 2" ?q 1]
    by (simp add: ErlangQueue_init_def spec_waiting_probability_def spec_x_def spec_y_def)
  have sla: "service_level_agreement ?q (1 / 3) (1 / 2) = Inr (1 - 1 / 3 * exp (- (1 / 360)))"
    using service_level_agreement_exp [of ?q "1 / 3" "1 / 2"]
    by (simp add: ErlangQueue_init_def)
  have "trial (1 / 2) 1 1 (667595 / 1000000) 180 (3 / 10) empty_series =
     Inr (1 - 1 / 3 * exp (- (1 / 360)),
       \<lparr>wp_list = [1 / 3],
        sla_list = [py_round_nd ((1 - 1 / 3 * exp (- (1 / 360))) * 100) 2],
        agent_list = [1], average_answer_speed = [120],
        percent_calls_answered_immediately = [6667 / 100],
        maximum_occupancy = [50], num_shrinkage = [2]\<rparr>)"
    using trial_success [OF wp sla, of empty_series]
    by (simp add: empty_series_def py_round_nd_def [of "200 / 3"] py_round_nd_def [of 120]
        py_round_nd_def [of 50] py_round_def math_ceil_def)
  then show ?thesis
    by (simp only: example_level_1)
qed

lemma trial_example_2:
  "trial (1 / 2) (1 + 1) 1 (667595 / 1000000) 180 (3 / 10)
     \<lparr>wp_list = [1 / 3], sla_list = [6676 / 100], agent_list = [1],
      average_answer_speed = [120], percent_calls_answered_immediately = [6667 / 100],
      maximum_occupancy = [50], num_shrinkage = [2]\<rparr> =
     Inr (1 - 1 / 16 * exp (- (1 / 120)),
       \<lparr>wp_list = [1 / 3, 1 / 16], sla_list = [6676 / 100, 9380 / 100], agent_list = [1, 2],
        average_answer_speed = [120, 15 / 2],
        percent_calls_answered_immediately = [6667 / 100, 375 / 4],
        maximum_occupancy = [50, 25], num_shrinkage = [2, 3]\<rparr>)"
proof -
  let ?q = "ErlangQueue_init (1 + 1) 1 (667595 / 1000000) 180 (3 / 10)"
  have wp: "waiting_probability ?q (1 / 2) = Inr (1 / 16)"
    using waiting_probability_stable [of "1 / 2" ?q 2]
    by (simp add: ErlangQueue_init_def spec_waiting_probability_def spec_x_def spec_y_def
        eval_nat_numeral)
  have sla: "service_level_agreement ?q (1 / 16) (1 / 2) = Inr (1 - 1 / 16 * exp (- (1 / 120)))"
    using service_level_agreement_exp [of ?q "1 / 16" "1 / 2"]
    by (simp add: ErlangQueue_init_def)
  have "trial (1 / 2) (1 + 1) 1 (667595 / 1000000) 180 (3 / 10)
     \<lparr>wp_list = [1 / 3], sla_list = [6676 / 100], agent_list = [1],
      average_answer_speed = [120], percent_calls_answered_immediately = [6667 / 100],
      maximum_occupancy = [50], num_shrinkage = [2]\<rparr> =
     Inr (1 - 1 / 16 * exp (- (1 / 120)),
       \<lparr>wp_list = [1 / 3, 1 / 16],
        sla_list = [6676 / 100, py_round_nd ((1 - 1 / 16 * exp (- (1 / 120))) * 100) 2],
        agent_list = [1, 2], average_answer_speed = [120, 15 / 2],
        percent_calls_answered_immediately = [6667 / 100, 375 / 4],
        maximum_occupancy = [50, 25], num_shrinkage = [2, 3]\<rparr>)"
    using trial_success [OF wp sla]
    by (simp add: py_round_nd_def [of "15 / 2"] py_round_nd_def [of "375 / 4"]
        py_round_nd_def [of 25] py_round_def math_ceil_def)
  then show ?thesis
    by (simp only: example_level_2)
qed

lemma forward_example:
  "forward (1 / 2) 1 1 (667595 / 1000000) 180 (3 / 10) =
     Some (Inr
       \<lparr>wp_list = [1 / 3, 1 / 16], sla_list = [6676 / 100, 9380 / 100], agent_list = [1, 2],
        average_answer_speed = [120, 15 / 2],
        percent_calls_answered_immediately = [6667 / 100, 375 / 4],
        maximum_occupancy = [50, 25], num_shrinkage = [2, 3]\<rparr>)"
  unfolding forward_def trial_example_1
  apply (subst forward_loop.simps)
  apply (simp only: sum.case fst_conv snd_conv trial_example_2 example_level_1 if_True)
  apply (subst forward_loop.simps)
  apply (simp only: example_level_2 if_False)
  done


subsection \<open>What a run of the search returns\<close>

text \<open>
  C9: when the search returns, its seven lists have one common length \<open>L \<ge> 1\<close> and
  the agent counts are the starting count, the starting count plus one, and so on up to
  the starting count plus \<open>L - 1\<close>.
\<close>

theorem C9_series_lengths_and_agents:
  assumes "forward ti na tat tsla aht shr = Some (Inr r)"
  shows "\<exists>L. 1 \<le> L
    \<and> length (wp_list r) = L \<and> length (sla_list r) = L \<and> length (agent_list r) = L
    \<and> length (average_answer_speed r) = L
    \<and> length (percent_calls_answered_immediately r) = L
    \<and> length (maximum_occupancy r) = L \<and> length (num_shrinkage r) = L
    \<and> agent_list r = map (\<lambda>i. na + real i) [0..<L]"
  using forward_series_shape [OF assms] unfolding series_shape_def by blast

theorem C9_series_lengths_and_agents_witness:
  "forward (1 / 2) 1 1 (667595 / 1000000) 180 (3 / 10) =
     Some (Inr
       \<lparr>wp_list = [1 / 3, 1 / 16], sla_list = [6676 / 100, 9380 / 100], agent_list = [1, 2],
        average_answer_speed = [120, 15 / 2],
        percent_calls_answered_immediately = [6667 / 100, 375 / 4],
        maximum_occupancy = [50, 25], num_shrinkage = [2, 3]\<rparr>)
   \<and> (\<exists>L. 1 \<le> L \<and> length [1 / 3, 1 / 16 :: real] = L \<and> length [6676 / 100, 9380 / 100 :: real] = L
        \<and> length [1, 2 :: real] = L \<and> length [120, 15 / 2 :: real] = L
        \<and> length [6667 / 100, 375 / 4 :: real] = L \<and> length [50, 25 :: real] = L
        \<and> length [2, 3 :: int] = L
        \<and> [1, 2 :: real] = map (\<lambda>i. 1 + real i) [0..<L])"
proof -
  have "\<exists>L. 1 \<le> L \<and> length [1 / 3, 1 / 16 :: real] = L \<and> length [6676 / 100, 9380 / 100 :: real] = L
        \<and> length [1, 2 :: real] = L \<and> length [120, 15 / 2 :: real] = L
        \<and> length [6667 / 100, 375 / 4 :: real] = L \<and> length [50, 25 :: real] = L
        \<and> length [2, 3 :: int] = L
        \<and> [1, 2 :: real] = map (\<lambda>i. 1 + real i) [0..<L]"
    using C9_series_lengths_and_agents [OF forward_example]
    by (simp only: series.simps)
  with forward_example show ?thesis
    by (rule conjI)
qed

lemma waiting_probability_Inr_stable:
  "waiting_probability self ti = Inr wp \<Longrightarrow> num_agents self - ti \<noteq> 0"
  by (auto simp: waiting_probability_def py_div_def split: sum.splits if_splits)

text \<open>
  C10: the starting agent count is evaluated and recorded before the loop condition is
  looked at. When that first evaluation succeeds with a service level that meets the
  target (for an agent count other than 0 and a shrinkage other than 1, so that the
  recorded metrics are defined), the search returns the seven one-element lists of that
  evaluation; and no run returns empty lists: the first agent count recorded is the
  starting one.
\<close>

theorem C10_first_evaluation_recorded:
  "(waiting_probability (ErlangQueue_init na tat tsla aht shr) ti = Inr wp
      \<and> service_level_agreement (ErlangQueue_init na tat tsla aht shr) wp ti = Inr sla
      \<and> tsla \<le> sla \<and> na \<noteq> 0 \<and> shr \<noteq> 1 \<longrightarrow>
    forward ti na tat tsla aht shr =
      Some (Inr \<lparr>wp_list = [wp],
                 sla_list = [py_round_nd (sla * 100) 2],
                 agent_list = [na],
                 average_answer_speed = [py_round_nd ((wp * aht) / (na - ti)) 1],
                 percent_calls_answered_immediately = [py_round_nd ((1 - wp) * 100) 2],
                 maximum_occupancy = [py_round_nd ((ti / na) * 100) 2],
                 num_shrinkage = [math_ceil (na / (1 - shr))]\<rparr>))
   \<and> (forward ti na tat tsla aht shr = Some (Inr r) \<longrightarrow>
        agent_list r \<noteq> [] \<and> hd (agent_list r) = na)"
proof (intro conjI impI)
  assume h: "waiting_probability (ErlangQueue_init na tat tsla aht shr) ti = Inr wp
      \<and> service_level_agreement (ErlangQueue_init na tat tsla aht shr) wp ti = Inr sla
      \<and> tsla \<le> sla \<and> na \<noteq> 0 \<and> shr \<noteq> 1"
  then have "na - ti \<noteq> 0"
    using waiting_probability_Inr_stable [of "ErlangQueue_init na tat tsla aht shr" ti wp]
    by (simp add: ErlangQueue_init_def)
  with h have "trial ti na tat tsla aht shr empty_series =
      Inr (sla, \<lparr>wp_list = [wp],
                 sla_list = [py_round_nd (sla * 100) 2],
                 agent_list = [na],
                 average_answer_speed = [py_round_nd ((wp * aht) / (na - ti)) 1],
                 percent_calls_answered_immediately = [py_round_nd ((1 - wp) * 100) 2],
                 maximum_occupancy = [py_round_nd ((ti / na) * 100) 2],
                 num_shrinkage = [math_ceil (na / (1 - shr))]\<rparr>)"
    using trial_success [of na tat tsla aht shr ti wp sla empty_series]
    by (simp add: empty_series_def)
  moreover have "\<not> sla < tsla"
    using h by simp
  ultimately show "forward ti na tat tsla aht shr =
      Some (Inr \<lparr>wp_list = [wp],
                 sla_list = [py_round_nd (sla * 100) 2],
                 agent_list = [na],
                 average_answer_speed = [py_round_nd ((wp * aht) / (na - ti)) 1],
                 percent_calls_answered_immediately = [py_round_nd ((1 - wp) * 100) 2],
                 maximum_occupancy = [py_round_nd ((ti / na) * 100) 2],
                 num_shrinkage = [math_ceil (na / (1 - shr))]\<rparr>)"
    by (rule forward_first_meets)
next
  assume "forward ti na tat tsla aht shr = Some (Inr r)"
  from forward_series_shape [OF this] obtain n L where
    "1 \<le> L" "agent_list r = map (\<lambda>i. na + real i) [0..<L]"
    unfolding series_shape_def by blast
  then show "agent_list r \<noteq> []" "hd (agent_list r) = na"
    by (simp_all add: hd_map upt_conv_Cons)
qed

theorem C10_first_evaluation_recorded_witness:
  "waiting_probability (ErlangQueue_init 1 20 (8 / 10) 180 (3 / 10)) 0 = Inr 0
   \<and> service_level_agreement (ErlangQueue_init 1 20 (8 / 10) 180 (3 / 10)) 0 0 = Inr 1
   \<and> (8 / 10 :: real) \<le> 1 \<and> (1::real) \<noteq> 0 \<and> (3 / 10 :: real) \<noteq> 1
   \<and> forward 0 1 20 (8 / 10) 180 (3 / 10) =
       Some (Inr \<lparr>wp_list = [0], sla_list = [100], agent_list = [1],
                  average_answer_speed = [0], percent_calls_answered_immediately = [100],
                  maximum_occupancy = [0], num_shrinkage = [2]\<rparr>)
   \<and> agent_list \<lparr>wp_list = [0], sla_list = [100], agent_list = [1 :: real],
                  average_answer_speed = [0], percent_calls_answered_immediately = [100],
                  maximum_occupancy = [0], num_shrinkage = [2]\<rparr> \<noteq> []"
proof -
  let ?q = "ErlangQueue_init 1 20 (8 / 10) 180 (3 / 10)"
  have wp: "waiting_probability ?q 0 = Inr 0"
    using waiting_probability_stable [of 0 ?q 1]
    by (simp add: ErlangQueue_init_def spec_waiting_probability_def spec_x_def spec_y_def)
  have sla: "service_level_agreement ?q 0 0 = Inr 1"
    by (simp add: service_level_agreement_def ErlangQueue_init_def py_div_def)
  have run: "forward 0 1 20 (8 / 10) 180 (3 / 10) =
       Some (Inr \<lparr>wp_list = [0], sla_list = [100], agent_list = [1],
                  average_answer_speed = [0], percent_calls_answered_immediately = [100],
                  maximum_occupancy = [0], num_shrinkage = [2]\<rparr>)"
    using C10_first_evaluation_recorded [of 1 20 "8 / 10" 180 "3 / 10" 0 0 1] wp sla
    by (simp add: py_round_nd_def py_round_def math_ceil_def)
  show ?thesis
    using C10_first_evaluation_recorded [of 1 20 "8 / 10" 180 "3 / 10" 0 0 1
        "\<lparr>wp_list = [0], sla_list = [100], agent_list = [1],
                  average_answer_speed = [0], percent_calls_answered_immediately = [100],
                  maximum_occupancy = [0], num_shrinkage = [2]\<rparr>"] wp sla run
    by simp
qed

subsection \<open>The first crossing of the target\<close>

lemma trial_service_level_at:
  assumes "trial ti na tat tsla aht shr st = Inr (s, st')"
  shows "service_level_at ti na tat tsla aht shr = Inr s"
    and "sla_list st' = sla_list st @ [py_round_nd (s * 100) 2]"
proof -
  from trial_Inr [OF assms] obtain wp where
    wp: "waiting_probability (ErlangQueue_init na tat tsla aht shr) ti = Inr wp"
    and sla: "service_level_agreement (ErlangQueue_init na tat tsla aht shr) wp ti = Inr s"
    and st': "sla_list st' = sla_list st @ [py_round_nd (s * 100) 2]"
    by auto
  from wp sla show "service_level_at ti na tat tsla aht shr = Inr s"
    by (simp add: service_level_at_def)
  from st' show "sla_list st' = sla_list st @ [py_round_nd (s * 100) 2]" .
qed

lemma crossing_init:
  assumes "trial ti n0 tat tsla aht shr empty_series = Inr (s, t)"
  shows "crossing ti n0 tat tsla aht shr n0 s t"
  unfolding crossing_def
  using trial_service_level_at [OF assms]
  by (intro exI [of _ 1]) (simp add: empty_series_def)

lemma crossing_step:
  assumes inv: "crossing ti n0 tat tsla aht shr n s t"
    and below: "s < tsla"
    and tr: "trial ti (n + 1) tat tsla aht shr t = Inr (s', t')"
  shows "crossing ti n0 tat tsla aht shr (n + 1) s' t'"
proof -
  from inv obtain L where L: "1 \<le> L" "n = n0 + real (L - 1)" "length (sla_list t) = L"
    and entries: "\<And>i. i < L \<Longrightarrow> \<exists>v. service_level_at ti (n0 + real i) tat tsla aht shr = Inr v
              \<and> sla_list t ! i = py_round_nd (v * 100) 2
              \<and> (Suc i < L \<longrightarrow> v < tsla) \<and> (Suc i = L \<longrightarrow> v = s)"
    unfolding crossing_def by blast
  have n: "n + 1 = n0 + real L"
    using L(1,2) by (simp add: of_nat_diff)
  note new = trial_service_level_at [OF tr]
  have "\<exists>v. service_level_at ti (n0 + real i) tat tsla aht shr = Inr v
      \<and> sla_list t' ! i = py_round_nd (v * 100) 2
      \<and> (Suc i < Suc L \<longrightarrow> v < tsla) \<and> (Suc i = Suc L \<longrightarrow> v = s')"
    if "i < Suc L" for i
  proof (cases "i < L")
    case True
    from entries [OF True] obtain v where
      v: "service_level_at ti (n0 + real i) tat tsla aht shr = Inr v"
      "sla_list t ! i = py_round_nd (v * 100) 2"
      "Suc i < L \<longrightarrow> v < tsla" "Suc i = L \<longrightarrow> v = s"
      by blast
    have "sla_list t' ! i = py_round_nd (v * 100) 2"
      using True L(3) v(2) new(2) by (simp add: nth_append)
    moreover have "v < tsla"
      using v(3,4) True below by (cases "Suc i = L") auto
    ultimately show ?thesis
      using v(1) True by auto
  next
    case False
    with that have i: "i = L"
      by simp
    have "sla_list t' ! i = py_round_nd (s' * 100) 2"
      using i L(3) new(2) by (simp add: nth_append)
    then show ?thesis
      using new(1) n i by auto
  qed
  then show ?thesis
    unfolding crossing_def using n L(3) new(2)
    by (intro exI [of _ "Suc L"]) simp
qed

lemma forward_crossing:
  assumes "forward ti na tat tsla aht shr = Some (Inr r)"
  shows "\<exists>n s. crossing ti na tat tsla aht shr n s r \<and> \<not> s < tsla"
proof -
  from forward_Some_Inr [OF assms] obtain s st0 where
    t: "trial ti na tat tsla aht shr empty_series = Inr (s, st0)"
    and run: "forward_loop ti na tat tsla aht shr s st0 = Some (Inr r)"
    by blast
  show ?thesis
    using run
  proof (rule forward_loop_invariant [where I = "crossing ti na tat tsla aht shr"])
    show "crossing ti na tat tsla aht shr na s st0"
      using t by (rule crossing_init)
  next
    fix n s t s' t'
    assume "crossing ti na tat tsla aht shr n s t" and "s < tsla"
      and "trial ti (n + 1) tat tsla aht shr t = Inr (s', t')"
    then show "crossing ti na tat tsla aht shr (n + 1) s' t'"
      by (rule crossing_step)
  qed
qed

text \<open>
  C2, as the claim states it, fails, because the lists record the service level rounded
  to two decimals of a percentage while the loop compares the unrounded one. In the run
  below the target is \<open>0.667595\<close>, that is \<open>66.7595\<close> percent; the first service
  level, about \<open>0.667591\<close>, is below it, so the search goes on, but it is recorded as
  \<open>66.76\<close>, which is not below \<open>66.7595\<close>.
\<close>

theorem C2_prior_entry_recorded_above_target:
  "forward (1 / 2) 1 1 (667595 / 1000000) 180 (3 / 10) =
     Some (Inr
       \<lparr>wp_list = [1 / 3, 1 / 16], sla_list = [6676 / 100, 9380 / 100], agent_list = [1, 2],
        average_answer_speed = [120, 15 / 2],
        percent_calls_answered_immediately = [6667 / 100, 375 / 4],
        maximum_occupancy = [50, 25], num_shrinkage = [2, 3]\<rparr>)
   \<and> \<not> ([6676 / 100, 9380 / 100 :: real] ! 0 < 667595 / 1000000 * 100)"
  using forward_example by simp

text \<open>
  C2, amended: when the search returns, entry \<open>i\<close> of its service-level list is the
  percentage, rounded to two decimals, of the service level at the starting agent count
  plus \<open>i\<close>; the unrounded service level of the last entry is at least the target and
  that of every earlier entry is below the target, so the search stops at the first agent
  count whose service level meets the target. Of the recorded percentages, the last is at
  least the target percentage rounded to two decimals, and every earlier one is at most
  that (it can equal or exceed the unrounded target percentage).
\<close>

theorem C2_first_crossing:
  assumes "forward ti na tat tsla aht shr = Some (Inr r)"
  shows "sla_list r \<noteq> []
    \<and> (\<forall>i<length (sla_list r). \<exists>v.
          service_level_at ti (na + real i) tat tsla aht shr = Inr v
          \<and> sla_list r ! i = py_round_nd (v * 100) 2
          \<and> (if Suc i = length (sla_list r) then tsla \<le> v else v < tsla))
    \<and> py_round_nd (tsla * 100) 2 \<le> last (sla_list r)
    \<and> (\<forall>i. Suc i < length (sla_list r) \<longrightarrow> sla_list r ! i \<le> py_round_nd (tsla * 100) 2)"
proof -
  from forward_crossing [OF assms] obtain n s L where
    s: "\<not> s < tsla" and L: "1 \<le> L" "length (sla_list r) = L"
    and entries: "\<And>i. i < L \<Longrightarrow> \<exists>v. service_level_at ti (na + real i) tat tsla aht shr = Inr v
              \<and> sla_list r ! i = py_round_nd (v * 100) 2
              \<and> (Suc i < L \<longrightarrow> v < tsla) \<and> (Suc i = L \<longrightarrow> v = s)"
    unfolding crossing_def by blast
  have nonempty: "sla_list r \<noteq> []"
    using L by auto
  have each: "\<exists>v. service_level_at ti (na + real i) tat tsla aht shr = Inr v
          \<and> sla_list r ! i = py_round_nd (v * 100) 2
          \<and> (if Suc i = length (sla_list r) then tsla \<le> v else v < tsla)"
    if "i < length (sla_list r)" for i
  proof -
    from that L(2) have "i < L"
      by simp
    from entries [OF this] obtain v where
      v: "service_level_at ti (na + real i) tat tsla aht shr = Inr v"
      "sla_list r ! i = py_round_nd (v * 100) 2"
      "Suc i < L \<longrightarrow> v < tsla" "Suc i = L \<longrightarrow> v = s"
      by blast
    have "if Suc i = length (sla_list r) then tsla \<le> v else v < tsla"
      using v(3,4) s L(2) \<open>i < L\<close> by auto
    with v(1,2) show ?thesis
      by blast
  qed
  have last_ok: "py_round_nd (tsla * 100) 2 \<le> last (sla_list r)"
  proof -
    have i: "L - 1 < length (sla_list r)" "Suc (L - 1) = length (sla_list r)"
      using L by simp_all
    from each [OF i(1)] i(2) obtain v where
      v: "sla_list r ! (L - 1) = py_round_nd (v * 100) 2" "tsla \<le> v"
      by auto
    have "last (sla_list r) = sla_list r ! (L - 1)"
      using nonempty L(2) by (simp add: last_conv_nth)
    moreover have "py_round_nd (tsla * 100) 2 \<le> py_round_nd (v * 100) 2"
      using v(2) by (intro py_round_nd_mono) simp
    ultimately show ?thesis
      using v(1) by simp
  qed
  have prior_ok: "sla_list r ! i \<le> py_round_nd (tsla * 100) 2"
    if "Suc i < length (sla_list r)" for i
  proof -
    from that have i: "i < length (sla_list r)" "Suc i \<noteq> length (sla_list r)"
      by simp_all
    from each [OF i(1)] i(2) obtain v where
      v: "sla_list r ! i = py_round_nd (v * 100) 2" "v < tsla"
      by auto
    have "py_round_nd (v * 100) 2 \<le> py_round_nd (tsla * 100) 2"
      using v(2) by (intro py_round_nd_mono) simp
    with v(1) show ?thesis
      by simp
  qed
  from nonempty each last_ok prior_ok show ?thesis
    by blast
qed

theorem C2_first_crossing_witness:
  "forward (1 / 2) 1 1 (667595 / 1000000) 180 (3 / 10) =
     Some (Inr
       \<lparr>wp_list = [1 / 3, 1 / 16], sla_list = [6676 / 100, 9380 / 100], agent_list = [1, 2],
        average_answer_speed = [120, 15 / 2],
        percent_calls_answered_immediately = [6667 / 100, 375 / 4],
        maximum_occupancy = [50, 25], num_shrinkage = [2, 3]\<rparr>)
   \<and> py_round_nd (667595 / 1000000 * 100) 2 \<le> last [6676 / 100, 9380 / 100 :: real]
   \<and> [6676 / 100, 9380 / 100 :: real] ! 0 \<le> py_round_nd (667595 / 1000000 * 100) 2"
proof -
  have "py_round_nd (667595 / 1000000 * 100) 2 \<le> last [6676 / 100, 9380 / 100 :: real]
      \<and> (\<forall>i. Suc i < length [6676 / 100, 9380 / 100 :: real] \<longrightarrow>
            [6676 / 100, 9380 / 100 :: real] ! i \<le> py_round_nd (667595 / 1000000 * 100) 2)"
    using C2_first_crossing [OF forward_example]
    by (simp only: series.simps) blast
  then have "py_round_nd (667595 / 1000000 * 100) 2 \<le> last [6676 / 100, 9380 / 100 :: real]
      \<and> [6676 / 100, 9380 / 100 :: real] ! 0 \<le> py_round_nd (667595 / 1000000 * 100) 2"
    by simp
  with forward_example show ?thesis
    by (rule conjI)
qed

subsection \<open>Termination of the search\<close>













end
